theory Spec2Isabelle
  imports Complex_Main
begin

section \<open>Order state machine\<close>

text \<open>
  \<^verbatim>\<open>enum class OrderState\<close> of \<^verbatim>\<open>include/OrderFSM.h\<close> and of namespace
  \<^verbatim>\<open>Domain\<close> in \<^verbatim>\<open>daa_project.c++\<close>: the same seven enumerators in the same order.
\<close>

datatype OrderState =
  CREATED | CONFIRMED | PREPARING | READY | SERVED | CANCELLED | REFUNDED

text \<open>\<^verbatim>\<open>OrderFSM::canTransition\<close> (\<^verbatim>\<open>include/OrderFSM.h\<close>): a switch on \<open>from\<close> with a
  \<^verbatim>\<open>default: return false\<close>.\<close>

fun canTransition :: "OrderState \<Rightarrow> OrderState \<Rightarrow> bool" where
  "canTransition CREATED to = (to = CONFIRMED \<or> to = CANCELLED)"
| "canTransition CONFIRMED to = (to = PREPARING \<or> to = CANCELLED)"
| "canTransition PREPARING to = (to = READY)"
| "canTransition READY to = (to = SERVED \<or> to = CANCELLED)"
| "canTransition SERVED to = (to = REFUNDED)"
| "canTransition _ to = False"

text \<open>\<^verbatim>\<open>Domain::OrderFlowManager::canTransition\<close> (\<^verbatim>\<open>daa_project.c++\<close>): the same switch
  with the two terminal states written out.\<close>

fun OrderFlowManager_canTransition :: "OrderState \<Rightarrow> OrderState \<Rightarrow> bool" where
  "OrderFlowManager_canTransition CREATED next = (next = CONFIRMED \<or> next = CANCELLED)"
| "OrderFlowManager_canTransition CONFIRMED next = (next = PREPARING \<or> next = CANCELLED)"
| "OrderFlowManager_canTransition PREPARING next = (next = READY)"
| "OrderFlowManager_canTransition READY next = (next = SERVED \<or> next = CANCELLED)"
| "OrderFlowManager_canTransition SERVED next = (next = REFUNDED)"
| "OrderFlowManager_canTransition CANCELLED next = False"
| "OrderFlowManager_canTransition REFUNDED next = False"

text \<open>\<^verbatim>\<open>OrderFlowManager::stateToString\<close>: indexes the array of display names by the
  enumerator's value, so each state has its own name.\<close>

fun stateToString :: "OrderState \<Rightarrow> string" where
  "stateToString CREATED = ''Created''"
| "stateToString CONFIRMED = ''Confirmed''"
| "stateToString PREPARING = ''Preparing''"
| "stateToString READY = ''Ready''"
| "stateToString SERVED = ''Served''"
| "stateToString CANCELLED = ''Cancelled''"
| "stateToString REFUNDED = ''Refunded''"

text \<open>\<^verbatim>\<open>OrderFlowManager::stringToState\<close>: a chain of comparisons that ends in
  \<^verbatim>\<open>return Domain::OrderState::CREATED; // Default\<close>. The return type is the enum: there
  is no failure value.\<close>

definition stringToState :: "string \<Rightarrow> OrderState" where
  "stringToState s =
     (if s = ''Created'' then CREATED
      else if s = ''Confirmed'' then CONFIRMED
      else if s = ''Preparing'' then PREPARING
      else if s = ''Ready'' then READY
      else if s = ''Served'' then SERVED
      else if s = ''Cancelled'' then CANCELLED
      else if s = ''Refunded'' then REFUNDED
      else CREATED)"

text \<open>\<^verbatim>\<open>OrderFSM::toString\<close> (\<^verbatim>\<open>include/OrderFSM.h\<close>): the upper-case names used by the
  business rules' violation messages.\<close>

fun OrderFSM_toString :: "OrderState \<Rightarrow> string" where
  "OrderFSM_toString CREATED = ''CREATED''"
| "OrderFSM_toString CONFIRMED = ''CONFIRMED''"
| "OrderFSM_toString PREPARING = ''PREPARING''"
| "OrderFSM_toString READY = ''READY''"
| "OrderFSM_toString SERVED = ''SERVED''"
| "OrderFSM_toString CANCELLED = ''CANCELLED''"
| "OrderFSM_toString REFUNDED = ''REFUNDED''"

definition all_states :: "OrderState list" where
  "all_states = [CREATED, CONFIRMED, PREPARING, READY, SERVED, CANCELLED, REFUNDED]"

section \<open>Logger\<close>

text \<open>
  \<^verbatim>\<open>enum class LogLevel { DEBUG, INFO, WARNING, ERROR }\<close> (\<^verbatim>\<open>include/Common.h\<close> and
  namespace \<^verbatim>\<open>Core\<close>). \<^verbatim>\<open>Logger::log\<close> returns at once when \<^verbatim>\<open>level < currentLevel\<close>;
  \<^verbatim>\<open>currentLevel\<close> is initialised to \<^verbatim>\<open>INFO\<close> and never assigned. Otherwise one line goes to
  the console (and to the log file when open). The model keeps the lines written, each as its
  level and message; the tag and the wall-clock text in front of the message are left out.
\<close>

datatype LogLevel = DEBUG | INFO | WARNING | ERROR

fun level_value :: "LogLevel \<Rightarrow> nat" where
  "level_value DEBUG = 0"
| "level_value INFO = 1"
| "level_value WARNING = 2"
| "level_value ERROR = 3"

type_synonym LogEntry = "LogLevel \<times> string"

definition currentLevel :: LogLevel where
  "currentLevel = INFO"

definition Logger_log :: "LogLevel \<Rightarrow> string \<Rightarrow> LogEntry list \<Rightarrow> LogEntry list" where
  "Logger_log level msg lines =
     (if level_value level < level_value currentLevel then lines else lines @ [(level, msg)])"

text \<open>\<^verbatim>\<open>std::to_string(int)\<close>: the decimal digits, with a minus sign for a negative value.\<close>

definition digit_char :: "nat \<Rightarrow> char" where
  "digit_char d = ''0123456789'' ! d"

function nat_to_string :: "nat \<Rightarrow> string" where
  "nat_to_string n =
     (if n < 10 then [digit_char n] else nat_to_string (n div 10) @ [digit_char (n mod 10)])"
  by pat_completeness auto
termination
  by (relation "measure id") auto

declare nat_to_string.simps [simp del]

definition to_string :: "int \<Rightarrow> string" where
  "to_string i = (if i < 0 then CHR ''-'' # nat_to_string (nat (- i)) else nat_to_string (nat i))"

section \<open>Order entities\<close>

text \<open>
  \<^verbatim>\<open>struct Order\<close> of \<^verbatim>\<open>include/Models.h\<close>. The \<^verbatim>\<open>double\<close> field is a real number here:
  the order engine only stores and compares it. \<^verbatim>\<open>std::time_t\<close> values are integers
  (seconds).
\<close>

record Order =
  orderId :: int
  customerId :: int
  total :: real
  priority :: int
  timestamp :: int
  state :: OrderState

text \<open>\<^verbatim>\<open>Order::updateState\<close>: the returned pair is the \<^verbatim>\<open>bool\<close> result and the object
  after the call.\<close>

definition updateState :: "Order \<Rightarrow> OrderState \<Rightarrow> bool \<times> Order" where
  "updateState ord next =
     (if canTransition (state ord) next then (True, ord\<lparr>state := next\<rparr>) else (False, ord))"

text \<open>
  \<^verbatim>\<open>struct Domain::Order\<close> of \<^verbatim>\<open>daa_project.c++\<close>. Field names shared with the record
  above carry the prefix \<open>d_\<close>.
\<close>

record Domain_Order =
  d_orderId :: int
  d_customerId :: int
  tableNumber :: int
  items :: "string list"
  itemCount :: int
  totalAmount :: real
  d_priority :: int
  status :: OrderState
  orderTime :: int

text \<open>\<^verbatim>\<open>Domain::Order::tryUpdateStatus\<close>: the \<^verbatim>\<open>bool\<close> result, the object after the call
  and the log after the call.\<close>

definition tryUpdateStatus ::
  "Domain_Order \<Rightarrow> OrderState \<Rightarrow> LogEntry list \<Rightarrow> bool \<times> Domain_Order \<times> LogEntry list" where
  "tryUpdateStatus ord newState lines =
     (if OrderFlowManager_canTransition (status ord) newState
      then (True, ord\<lparr>status := newState\<rparr>,
            Logger_log INFO (''Order '' @ to_string (d_orderId ord) @ '' transitioned to ''
                             @ stateToString newState) lines)
      else (False, ord,
            Logger_log WARNING (''Invalid state transition for order '' @ to_string (d_orderId ord)
                                @ '': '' @ stateToString (status ord) @ '' -> ''
                                @ stateToString newState) lines))"

section \<open>Events, listeners and the program's static state\<close>

datatype EventType =
  ORDER_PLACED | ORDER_CONFIRMED | ORDER_PREPARING | ORDER_READY | ORDER_SERVED
| ORDER_CANCELLED | ORDER_REFUNDED | INVENTORY_UPDATED | INVENTORY_LOW
| CUSTOMER_CREATED | CUSTOMER_DELETED | PAYMENT_PROCESSED | REFUND_ISSUED

text \<open>\<^verbatim>\<open>struct Event\<close>; the fields carry the prefix \<open>e_\<close>.\<close>

record Event =
  e_type :: EventType
  e_entityId :: int
  e_entityType :: string
  e_details :: string
  e_timestamp :: int
  e_sourceAction :: string

text \<open>
  What a call of \<^verbatim>\<open>EventListener::onEvent\<close> can throw: an object of a class derived from
  \<^verbatim>\<open>std::exception\<close> (with its \<^verbatim>\<open>what()\<close> text), or an object of any other type.
\<close>

datatype thrown = StdException string | OtherThrow

text \<open>
  An \<^verbatim>\<open>EventListener\<close> object: its name, and what \<^verbatim>\<open>onEvent\<close> does with an event, namely
  write log lines and return (\<open>None\<close>) or throw. A listener is referred to by its address;
  \<open>nullptr\<close> is address 0, and the objects are found through a map from addresses.
\<close>

record EventListener =
  getName :: string
  onEvent :: "Event \<Rightarrow> LogEntry list \<Rightarrow> thrown option \<times> LogEntry list"

type_synonym ptr = nat

definition nullptr :: ptr where
  "nullptr = 0"

text \<open>\<^verbatim>\<open>struct IdempotencyRecord\<close>, with \<^verbatim>\<open>isExpired\<close> reading the clock \<open>now\<close>.\<close>

record IdempotencyRecord =
  requestId :: string
  operationType :: string
  succeeded :: bool
  resultData :: string
  createdAt :: int
  ttlSeconds :: int


text \<open>
  The static variables of the services: the lines logged, \<^verbatim>\<open>Config::configMap\<close>,
  \<^verbatim>\<open>BusinessRules::lastViolationMessage\<close>, \<^verbatim>\<open>IdempotencyService::registry\<close> and
  \<^verbatim>\<open>defaultTTLSeconds\<close>, and the \<^verbatim>\<open>listeners\<close> vector of the one \<^verbatim>\<open>EventBus\<close>. The field
  \<open>calls\<close> is a trace: every call of \<^verbatim>\<open>onEvent\<close> made by the bus, with the listener's address
  and the event, in the order made.
\<close>

record World =
  logged :: "LogEntry list"
  configMap :: "string \<rightharpoonup> string"
  lastViolationMessage :: string
  registry :: "string \<rightharpoonup> IdempotencyRecord"
  defaultTTLSeconds :: int
  listeners :: "ptr list"
  calls :: "(ptr \<times> Event) list"

definition log_line :: "LogLevel \<Rightarrow> string \<Rightarrow> World \<Rightarrow> World" where
  "log_line level msg w = w\<lparr>logged := Logger_log level msg (logged w)\<rparr>"

section \<open>Configuration and business rules\<close>

text \<open>
  \<^verbatim>\<open>std::stoi\<close> in base 10, as the C++ library defines it: white space is skipped, an
  optional sign is read, then the longest run of digits; characters after it are ignored. No
  digit at all (\<^verbatim>\<open>std::invalid_argument\<close>) or a value outside the 32-bit \<^verbatim>\<open>int\<close>
  (\<^verbatim>\<open>std::out_of_range\<close>) is \<open>None\<close>.
\<close>

definition isspace_c :: "char \<Rightarrow> bool" where
  "isspace_c c = (c \<in> {CHR '' '', CHR 0x09, CHR 0x0A, CHR 0x0B, CHR 0x0C, CHR 0x0D})"

definition isdigit_c :: "char \<Rightarrow> bool" where
  "isdigit_c c = (c \<in> set ''0123456789'')"

definition digit_val :: "char \<Rightarrow> nat" where
  "digit_val c = of_char c - 48"

definition digits_value :: "string \<Rightarrow> nat" where
  "digits_value ds = foldl (\<lambda>acc c. 10 * acc + digit_val c) 0 ds"

definition stoi :: "string \<Rightarrow> int option" where
  "stoi s =
     (let r = dropWhile isspace_c s;
          neg = (r \<noteq> [] \<and> hd r = CHR ''-'');
          r' = (if r \<noteq> [] \<and> (hd r = CHR ''-'' \<or> hd r = CHR ''+'') then tl r else r);
          ds = takeWhile isdigit_c r';
          v = (if neg then - int (digits_value ds) else int (digits_value ds))
      in if ds = [] then None
         else if v < - (2 ^ 31) \<or> 2 ^ 31 - 1 < v then None
         else Some v)"

text \<open>\<^verbatim>\<open>Config::getInt\<close>: the default when the key is absent, and, with a warning logged,
  when \<^verbatim>\<open>std::stoi\<close> throws.\<close>

definition Config_getInt :: "string \<Rightarrow> int \<Rightarrow> World \<Rightarrow> int \<times> World" where
  "Config_getInt key defaultValue w =
     (case configMap w key of
        None \<Rightarrow> (defaultValue, w)
      | Some v \<Rightarrow>
          (case stoi v of
             Some n \<Rightarrow> (n, w)
           | None \<Rightarrow>
               (defaultValue, log_line WARNING (''Invalid integer config value for '' @ key) w)))"

text \<open>Integer division of C++ truncates towards zero. \<^verbatim>\<open>std::time_t\<close> is a signed 64-bit
  integer: the difference of two of them is kept in 64 bits, wrapping around in two's
  complement as the compiled code does. The conversion of a \<^verbatim>\<open>time_t\<close> quotient to
  \<^verbatim>\<open>int\<close> keeps the low 32 bits, read as two's complement.\<close>

definition cdiv :: "int \<Rightarrow> int \<Rightarrow> int" where
  "cdiv a b = (if (a < 0) = (b < 0) then \<bar>a\<bar> div \<bar>b\<bar> else - (\<bar>a\<bar> div \<bar>b\<bar>))"

definition to_int32 :: "int \<Rightarrow> int" where
  "to_int32 x = (x + 2 ^ 31) mod 2 ^ 32 - 2 ^ 31"

definition to_int64 :: "int \<Rightarrow> int" where
  "to_int64 x = (x + 2 ^ 63) mod 2 ^ 64 - 2 ^ 63"

text \<open>\<^verbatim>\<open>BusinessRules::isWithinRefundWindow\<close>; \<open>now\<close> is what \<^verbatim>\<open>std::time(nullptr)\<close>
  returns.\<close>

definition isWithinRefundWindow :: "int \<Rightarrow> Order \<Rightarrow> World \<Rightarrow> bool \<times> World" where
  "isWithinRefundWindow now ord w =
     (let (refundWindowDays, w') = Config_getInt ''REFUND_WINDOW_DAYS'' 7 w;
          orderAge = to_int64 (now - timestamp ord);
          daysSinceOrder = to_int32 (cdiv orderAge (24 * 3600))
      in (daysSinceOrder \<le> refundWindowDays, w'))"

text \<open>\<^verbatim>\<open>BusinessRules::canCreateOrder\<close> and \<^verbatim>\<open>canCancelOrder\<close>: a failed rule stores its
  message in \<^verbatim>\<open>lastViolationMessage\<close>.\<close>

definition canCreateOrder :: "int \<Rightarrow> real \<Rightarrow> World \<Rightarrow> bool \<times> World" where
  "canCreateOrder cid amount w =
     (if cid \<le> 0 then (False, w\<lparr>lastViolationMessage := ''Invalid customer ID''\<rparr>)
      else if amount \<le> 0
        then (False, w\<lparr>lastViolationMessage := ''Order amount must be positive''\<rparr>)
      else (True, w))"

definition canCancelOrder :: "Order \<Rightarrow> World \<Rightarrow> bool \<times> World" where
  "canCancelOrder ord w =
     (if state ord = SERVED \<or> state ord = REFUNDED \<or> state ord = CANCELLED
      then (False, w\<lparr>lastViolationMessage :=
                       ''Cannot cancel order in '' @ OrderFSM_toString (state ord) @ '' state''\<rparr>)
      else (True, w))"

section \<open>Idempotency service\<close>



definition recordFailure :: "int \<Rightarrow> string \<Rightarrow> string \<Rightarrow> World \<Rightarrow> World" where
  "recordFailure now rid opType w =
     log_line WARNING (''IdempotencyService: Recorded failure for '' @ rid)
       (w\<lparr>registry := (registry w)(rid \<mapsto>
            \<lparr>requestId = rid, operationType = opType, succeeded = False, resultData = [],
             createdAt = now, ttlSeconds = defaultTTLSeconds w\<rparr>)\<rparr>)"

section \<open>Event bus\<close>

definition quote :: string where
  "quote = [CHR 0x27]"

text \<open>\<^verbatim>\<open>EventBus::subscribe\<close>: nothing for a null pointer, nothing for a listener that
  \<^verbatim>\<open>std::find\<close> finds in the vector, else \<^verbatim>\<open>push_back\<close> and a log line.\<close>

definition subscribe :: "(ptr \<Rightarrow> EventListener) \<Rightarrow> ptr \<Rightarrow> World \<Rightarrow> World" where
  "subscribe h listener w =
     (if listener = nullptr then w
      else if listener \<notin> set (listeners w)
        then log_line INFO (''EventBus: Listener '' @ quote @ getName (h listener) @ quote
                            @ '' subscribed'')
               (w\<lparr>listeners := listeners w @ [listener]\<rparr>)
      else w)"

text \<open>\<^verbatim>\<open>EventBus::unsubscribe\<close>: erases the first position that holds the listener.\<close>

definition unsubscribe :: "(ptr \<Rightarrow> EventListener) \<Rightarrow> ptr \<Rightarrow> World \<Rightarrow> World" where
  "unsubscribe h listener w =
     (if listener = nullptr then w
      else if listener \<in> set (listeners w)
        then log_line INFO (''EventBus: Listener '' @ quote @ getName (h listener) @ quote
                            @ '' unsubscribed'')
               (w\<lparr>listeners := remove1 listener (listeners w)\<rparr>)
      else w)"

fun eventName :: "EventType \<Rightarrow> string" where
  "eventName ORDER_PLACED = ''ORDER_PLACED''"
| "eventName ORDER_CONFIRMED = ''ORDER_CONFIRMED''"
| "eventName ORDER_PREPARING = ''ORDER_PREPARING''"
| "eventName ORDER_READY = ''ORDER_READY''"
| "eventName ORDER_SERVED = ''ORDER_SERVED''"
| "eventName ORDER_CANCELLED = ''ORDER_CANCELLED''"
| "eventName ORDER_REFUNDED = ''ORDER_REFUNDED''"
| "eventName INVENTORY_UPDATED = ''INVENTORY_UPDATED''"
| "eventName INVENTORY_LOW = ''INVENTORY_LOW''"
| "eventName CUSTOMER_CREATED = ''CUSTOMER_CREATED''"
| "eventName CUSTOMER_DELETED = ''CUSTOMER_DELETED''"
| "eventName PAYMENT_PROCESSED = ''PAYMENT_PROCESSED''"
| "eventName REFUND_ISSUED = ''REFUND_ISSUED''"

text \<open>
  The loop of \<^verbatim>\<open>EventBus::emit\<close> over the listeners still to be called. Each call of
  \<^verbatim>\<open>onEvent\<close> is inside \<^verbatim>\<open>try { ... } catch (const std::exception& e)\<close>: a
  \<^verbatim>\<open>std::exception\<close> is logged and the loop goes on; an object of another type is not
  caught, so it leaves the loop and \<^verbatim>\<open>emit\<close>. The first component of the result is what
  leaves \<^verbatim>\<open>emit\<close> by a throw, \<open>None\<close> for a normal return.
\<close>

fun dispatch ::
  "(ptr \<Rightarrow> EventListener) \<Rightarrow> Event \<Rightarrow> ptr list \<Rightarrow> World \<Rightarrow> thrown option \<times> World" where
  "dispatch h e [] w = (None, w)"
| "dispatch h e (l # ls) w =
     (let (res, lines) = onEvent (h l) e (logged w);
          w' = w\<lparr>logged := lines, calls := calls w @ [(l, e)]\<rparr>
      in case res of
           None \<Rightarrow> dispatch h e ls w'
         | Some (StdException what) \<Rightarrow>
             dispatch h e ls
               (log_line ERROR (''EventBus: Listener '' @ quote @ getName (h l) @ quote
                                @ '' threw exception: '' @ what) w')
         | Some OtherThrow \<Rightarrow> (Some OtherThrow, w'))"

definition emit :: "(ptr \<Rightarrow> EventListener) \<Rightarrow> Event \<Rightarrow> World \<Rightarrow> thrown option \<times> World" where
  "emit h e w =
     dispatch h e (listeners w)
       (log_line DEBUG (''EventBus: Emitting '' @ eventName (e_type e) @ '' (entity:''
                        @ e_entityType e @ ''#'' @ to_string (e_entityId e) @ '')'') w)"

text \<open>The three listeners that \<^verbatim>\<open>initializeEventListeners\<close> creates.\<close>

definition LoggerListener :: EventListener where
  "LoggerListener =
     \<lparr>getName = ''LoggerListener'',
      onEvent = (\<lambda>e lines. (None, Logger_log INFO (''[EVENT]'' @ '' '' @ e_entityType e @ ''#''
                                @ to_string (e_entityId e) @ '' | '' @ e_details e) lines))\<rparr>"

definition AuditListener :: EventListener where
  "AuditListener =
     \<lparr>getName = ''AuditListener'',
      onEvent = (\<lambda>e lines. (None, Logger_log INFO (''AUDIT: '' @ e_entityType e @ '' operation: ''
                                @ e_details e) lines))\<rparr>"

definition AnalyticsListener :: EventListener where
  "AnalyticsListener =
     \<lparr>getName = ''AnalyticsListener'',
      onEvent = (\<lambda>e lines. (None, Logger_log DEBUG (''ANALYTICS: Tracked '' @ e_entityType e
                                @ '' event'') lines))\<rparr>"

section \<open>Commands\<close>

text \<open>
  The four classes derived from \<^verbatim>\<open>Command\<close> in \<^verbatim>\<open>include/CommandPattern.h\<close>, each with the
  members its constructor stores.
\<close>

datatype Command =
  PlaceOrderCommand Order
| CancelOrderCommand int string
| IssueRefundCommand int real string
| ConfirmOrderCommand int

text \<open>
  \<^verbatim>\<open>Event evt; evt.type = ...; evt.timestamp = std::time(nullptr);\<close> The strings are empty;
  \<^verbatim>\<open>entityId\<close> is never assigned, so the event carries whatever \<open>junk\<close> the variable held.
\<close>

definition new_Event :: "int \<Rightarrow> EventType \<Rightarrow> int \<Rightarrow> Event" where
  "new_Event junk ty now =
     \<lparr>e_type = ty, e_entityId = junk, e_entityType = [], e_details = [], e_timestamp = now,
      e_sourceAction = []\<rparr>"

text \<open>What \<^verbatim>\<open>execute\<close> hands back after \<^verbatim>\<open>emit\<close>: \<^verbatim>\<open>return true\<close>, unless a throw left
  \<^verbatim>\<open>emit\<close>, which then leaves \<^verbatim>\<open>execute\<close> too.\<close>

definition return_true :: "thrown option \<times> World \<Rightarrow> (thrown + bool) \<times> World" where
  "return_true r = (case fst r of None \<Rightarrow> (Inr True, snd r) | Some t \<Rightarrow> (Inl t, snd r))"

text \<open>
  \<^verbatim>\<open>Command::execute\<close>, by the class of the object. \<open>fmt\<close> is \<^verbatim>\<open>std::to_string(double)\<close>,
  \<open>junk\<close> the unassigned \<^verbatim>\<open>entityId\<close>, \<open>now\<close> the clock.
\<close>

fun execute ::
  "(ptr \<Rightarrow> EventListener) \<Rightarrow> (real \<Rightarrow> string) \<Rightarrow> int \<Rightarrow> int \<Rightarrow> Command \<Rightarrow> World
     \<Rightarrow> (thrown + bool) \<times> World" where
  "execute h fmt junk now (PlaceOrderCommand ord) w =
     return_true (emit h (new_Event junk ORDER_PLACED now)
                    (log_line INFO ''PlaceOrderCommand: Processing'' w))"
| "execute h fmt junk now (CancelOrderCommand oid reason) w =
     return_true (emit h (new_Event junk ORDER_CANCELLED now)
                    (log_line INFO (''CancelOrderCommand #'' @ to_string oid) w))"
| "execute h fmt junk now (IssueRefundCommand oid amount reason) w =
     return_true (emit h (new_Event junk REFUND_ISSUED now)
                    (log_line INFO (''IssueRefundCommand: $'' @ fmt amount) w))"
| "execute h fmt junk now (ConfirmOrderCommand oid) w =
     return_true (emit h (new_Event junk ORDER_CONFIRMED now)
                    (log_line INFO (''ConfirmOrderCommand #'' @ to_string oid) w))"

text \<open>The line each \<^verbatim>\<open>execute\<close> logs before anything else, and the event type each command
  class emits.\<close>

fun command_line :: "(real \<Rightarrow> string) \<Rightarrow> Command \<Rightarrow> string" where
  "command_line fmt (PlaceOrderCommand ord) = ''PlaceOrderCommand: Processing''"
| "command_line fmt (CancelOrderCommand oid reason) = ''CancelOrderCommand #'' @ to_string oid"
| "command_line fmt (IssueRefundCommand oid amount reason) = ''IssueRefundCommand: $'' @ fmt amount"
| "command_line fmt (ConfirmOrderCommand oid) = ''ConfirmOrderCommand #'' @ to_string oid"

fun event_type_of :: "Command \<Rightarrow> EventType" where
  "event_type_of (PlaceOrderCommand ord) = ORDER_PLACED"
| "event_type_of (CancelOrderCommand oid reason) = ORDER_CANCELLED"
| "event_type_of (IssueRefundCommand oid amount reason) = REFUND_ISSUED"
| "event_type_of (ConfirmOrderCommand oid) = ORDER_CONFIRMED"

section \<open>Initial state\<close>

text \<open>The static variables as their initialisers leave them: nothing logged, an empty
  configuration map and registry, \<^verbatim>\<open>defaultTTLSeconds = 86400\<close>, no listener.\<close>

definition World0 :: World where
  "World0 = \<lparr>logged = [], configMap = Map.empty, lastViolationMessage = [],
             registry = Map.empty, defaultTTLSeconds = 86400, listeners = [], calls = []\<rparr>"

text \<open>The local variable \<^verbatim>\<open>refundWindowDays\<close> of \<^verbatim>\<open>isWithinRefundWindow\<close>.\<close>

definition refundWindowDays :: "World \<Rightarrow> int" where
  "refundWindowDays w = fst (Config_getInt ''REFUND_WINDOW_DAYS'' 7 w)"

section \<open>Sequences of subscriptions and example listeners\<close>

text \<open>Calling \<^verbatim>\<open>subscribe\<close> for each listener of a list in turn.\<close>

definition subscribe_all :: "(ptr \<Rightarrow> EventListener) \<Rightarrow> ptr list \<Rightarrow> World \<Rightarrow> World" where
  "subscribe_all h ls w = foldl (\<lambda>w' l. subscribe h l w') w ls"

text \<open>A listener whose \<^verbatim>\<open>onEvent\<close> throws \<open>t\<close> at once, and two sets of listener objects
  at the addresses 1, 2 and 3: one where the first throws a \<^verbatim>\<open>std::exception\<close>, one where
  the second throws an object of another type.\<close>

definition throwing_listener :: "string \<Rightarrow> thrown \<Rightarrow> EventListener" where
  "throwing_listener name t = \<lparr>getName = name, onEvent = (\<lambda>e lines. (Some t, lines))\<rparr>"

definition heap_std :: "ptr \<Rightarrow> EventListener" where
  "heap_std p =
     (if p = 1 then throwing_listener ''Faulty'' (StdException ''boom'')
      else if p = 2 then LoggerListener else AuditListener)"

definition heap_other :: "ptr \<Rightarrow> EventListener" where
  "heap_other p =
     (if p = 1 then LoggerListener
      else if p = 2 then throwing_listener ''Faulty'' OtherThrow else AuditListener)"

section \<open>The transition table\<close>

lemma all_states_complete: "s \<in> set all_states"
  by (cases s) (simp_all add: all_states_def)

text \<open>
  Claim C1. \<open>canTransition from to\<close> is true exactly on the eight edges
  Created to Confirmed or Cancelled, Confirmed to Preparing or Cancelled, Preparing to Ready,
  Ready to Served or Cancelled, Served to Refunded, and false on every other pair. So no state
  has an edge to itself, and Cancelled and Refunded have no outgoing edge. The two copies of
  the function (\<^verbatim>\<open>OrderFSM\<close> and \<^verbatim>\<open>OrderFlowManager\<close>) agree.
\<close>

theorem canTransition_table:
  "(canTransition from to =
     ((from, to) \<in> {(CREATED, CONFIRMED), (CREATED, CANCELLED),
                     (CONFIRMED, PREPARING), (CONFIRMED, CANCELLED),
                     (PREPARING, READY),
                     (READY, SERVED), (READY, CANCELLED),
                     (SERVED, REFUNDED)}))
   \<and> OrderFlowManager_canTransition from to = canTransition from to
   \<and> \<not> canTransition s s
   \<and> \<not> canTransition CANCELLED x
   \<and> \<not> canTransition REFUNDED x"
proof -
  have edges: "canTransition from to =
     ((from, to) \<in> {(CREATED, CONFIRMED), (CREATED, CANCELLED),
                     (CONFIRMED, PREPARING), (CONFIRMED, CANCELLED),
                     (PREPARING, READY),
                     (READY, SERVED), (READY, CANCELLED),
                     (SERVED, REFUNDED)})"
    by (cases "from"; cases to; simp)
  have same: "OrderFlowManager_canTransition from to = canTransition from to"
    by (cases "from"; simp)
  have no_loop: "\<not> canTransition s s"
    by (cases s; simp)
  show ?thesis
    using edges same no_loop by simp
qed

section \<open>Display names\<close>

text \<open>
  Claim C7. Parsing the display name of a state gives the state back:
  \<open>stringToState (stateToString s) = s\<close> for each of the seven states.
\<close>

theorem stringToState_stateToString:
  "stringToState (stateToString s) = s"
  by (cases s) (simp_all add: stringToState_def)

section \<open>Guarded transition\<close>

text \<open>
  Claim C2, as the code has it. \<^verbatim>\<open>updateState\<close> and \<^verbatim>\<open>tryUpdateStatus\<close> succeed exactly when
  \<open>canTransition\<close> holds for the order's state and the requested one. On success the state
  field becomes the requested state and no other field changes. On failure the order is
  unchanged and the result is \<^verbatim>\<open>false\<close>, a Boolean that carries neither state;
  \<^verbatim>\<open>tryUpdateStatus\<close> also logs one warning with the order id and the display names of both
  states, \<^verbatim>\<open>updateState\<close> reports nothing else.
\<close>

theorem guarded_transition:
  "fst (updateState ord next) = canTransition (state ord) next
   \<and> (canTransition (state ord) next \<longrightarrow> snd (updateState ord next) = ord\<lparr>state := next\<rparr>)
   \<and> (\<not> canTransition (state ord) next \<longrightarrow> updateState ord next = (False, ord))
   \<and> fst (tryUpdateStatus d newState lines) = OrderFlowManager_canTransition (status d) newState
   \<and> (OrderFlowManager_canTransition (status d) newState \<longrightarrow>
        fst (snd (tryUpdateStatus d newState lines)) = d\<lparr>status := newState\<rparr>)
   \<and> (\<not> OrderFlowManager_canTransition (status d) newState \<longrightarrow>
        tryUpdateStatus d newState lines =
          (False, d, lines @ [(WARNING, ''Invalid state transition for order ''
             @ to_string (d_orderId d) @ '': '' @ stateToString (status d) @ '' -> ''
             @ stateToString newState)]))"
  by (simp add: updateState_def tryUpdateStatus_def Logger_log_def currentLevel_def)

theorem guarded_transition_witness:
  "fst (updateState \<lparr>orderId = 1, customerId = 101, total = 450, priority = 0, timestamp = 0,
                      state = CREATED\<rparr> CONFIRMED)
   \<and> snd (updateState \<lparr>orderId = 1, customerId = 101, total = 450, priority = 0,
                        timestamp = 0, state = CREATED\<rparr> CONFIRMED)
     = \<lparr>orderId = 1, customerId = 101, total = 450, priority = 0, timestamp = 0,
        state = CONFIRMED\<rparr>
   \<and> updateState \<lparr>orderId = 1, customerId = 101, total = 450, priority = 0, timestamp = 0,
                   state = SERVED\<rparr> PREPARING
     = (False, \<lparr>orderId = 1, customerId = 101, total = 450, priority = 0, timestamp = 0,
                 state = SERVED\<rparr>)
   \<and> tryUpdateStatus \<lparr>d_orderId = 42, d_customerId = 101, tableNumber = 3, items = [],
                       itemCount = 0, totalAmount = 450, d_priority = 0, status = SERVED,
                       orderTime = 0\<rparr> PREPARING []
     = (False, \<lparr>d_orderId = 42, d_customerId = 101, tableNumber = 3, items = [],
                 itemCount = 0, totalAmount = 450, d_priority = 0, status = SERVED,
                 orderTime = 0\<rparr>,
        [(WARNING, ''Invalid state transition for order 42: Served -> Preparing'')])
   \<and> fst (tryUpdateStatus \<lparr>d_orderId = 42, d_customerId = 101, tableNumber = 3,
                       items = [], itemCount = 0, totalAmount = 450, d_priority = 0,
                       status = READY, orderTime = 0\<rparr> SERVED [])
   \<and> fst (snd (tryUpdateStatus \<lparr>d_orderId = 42, d_customerId = 101, tableNumber = 3,
                       items = [], itemCount = 0, totalAmount = 450, d_priority = 0,
                       status = READY, orderTime = 0\<rparr> SERVED []))
     = \<lparr>d_orderId = 42, d_customerId = 101, tableNumber = 3, items = [],
        itemCount = 0, totalAmount = 450, d_priority = 0, status = SERVED, orderTime = 0\<rparr>"
proof -
  have n42: "to_string 42 = ''42''" by code_simp
  show ?thesis
    using guarded_transition [of "\<lparr>orderId = 1, customerId = 101, total = 450, priority = 0,
              timestamp = 0, state = CREATED\<rparr>" CONFIRMED
            "\<lparr>d_orderId = 42, d_customerId = 101, tableNumber = 3, items = [],
                       itemCount = 0, totalAmount = 450, d_priority = 0, status = SERVED,
                       orderTime = 0\<rparr>" PREPARING "[]"]
          guarded_transition [of "\<lparr>orderId = 1, customerId = 101, total = 450, priority = 0,
              timestamp = 0, state = SERVED\<rparr>" PREPARING
            "\<lparr>d_orderId = 42, d_customerId = 101, tableNumber = 3, items = [],
                       itemCount = 0, totalAmount = 450, d_priority = 0, status = READY,
                       orderTime = 0\<rparr>" SERVED "[]"]
    by (simp add: n42)
qed

text \<open>Two failed calls on different illegal pairs of states give the same result: the value
  returned by \<^verbatim>\<open>updateState\<close> does not identify the states.\<close>

theorem transition_report_counterexample:
  "\<not> canTransition SERVED PREPARING \<and> \<not> canTransition CANCELLED CONFIRMED
   \<and> (SERVED, PREPARING) \<noteq> (CANCELLED, CONFIRMED)
   \<and> fst (updateState \<lparr>orderId = 1, customerId = 101, total = 450, priority = 0,
                         timestamp = 0, state = SERVED\<rparr> PREPARING)
     = fst (updateState \<lparr>orderId = 1, customerId = 101, total = 450, priority = 0,
                         timestamp = 0, state = CANCELLED\<rparr> CONFIRMED)"
  by (simp add: updateState_def)

section \<open>Unknown display names\<close>

text \<open>
  Claim C3, as the code has it. For a string that is the display name of no state,
  \<^verbatim>\<open>stringToState\<close> returns \<open>CREATED\<close>: the function has no failure result.
\<close>

theorem stringToState_default:
  assumes "\<forall>st. s \<noteq> stateToString st"
  shows "stringToState s = CREATED"
proof -
  have "s \<noteq> stateToString CONFIRMED" "s \<noteq> stateToString PREPARING" "s \<noteq> stateToString READY"
       "s \<noteq> stateToString SERVED" "s \<noteq> stateToString CANCELLED" "s \<noteq> stateToString REFUNDED"
    using assms by blast+
  then show ?thesis by (simp add: stringToState_def)
qed

theorem stringToState_default_witness:
  "(\<forall>st. ''Pending'' \<noteq> stateToString st) \<and> stringToState ''Pending'' = CREATED"
proof -
  have h: "\<forall>st. ''Pending'' \<noteq> stateToString st"
  proof
    fix st show "''Pending'' \<noteq> stateToString st" by (cases st) simp_all
  qed
  from stringToState_default [OF h] h show ?thesis by simp
qed

text \<open>The string \<open>Pending\<close> names no state and is parsed as \<open>CREATED\<close>, not rejected.\<close>

theorem stringToState_counterexample:
  "''Pending'' \<notin> set (map stateToString all_states) \<and> stringToState ''Pending'' = CREATED"
  by (simp add: all_states_def stringToState_def)

section \<open>Refund window\<close>

lemma World0_config: "configMap World0 k = None"
  by (simp add: World0_def)

lemma cdiv_nonneg: "0 \<le> a \<Longrightarrow> cdiv a 86400 = a div 86400"
  by (simp add: cdiv_def)

lemma cdiv_neg: "a < 0 \<Longrightarrow> cdiv a 86400 = - ((- a) div 86400)"
  by (simp add: cdiv_def)

lemma to_int32_id: "- (2 ^ 31) \<le> x \<Longrightarrow> x < 2 ^ 31 \<Longrightarrow> to_int32 x = x"
proof -
  assume a: "- (2 ^ 31) \<le> x" "x < 2 ^ 31"
  have "0 \<le> x + 2 ^ 31" "x + 2 ^ 31 < 2 ^ 32" using a by simp_all
  then have "(x + 2 ^ 31) mod 2 ^ 32 = x + 2 ^ 31" by (rule mod_pos_pos_trivial)
  then show ?thesis by (simp add: to_int32_def)
qed

lemma cdiv_bound:
  assumes "\<bar>a\<bar> < 2 ^ 31 * 86400"
  shows "- (2 ^ 31) \<le> cdiv a 86400 \<and> cdiv a 86400 < 2 ^ 31"
proof (cases "0 \<le> a")
  case True
  then have "a div 86400 < 2 ^ 31" using assms by (simp add: div_less_iff_less_mult)
  moreover have "0 \<le> a div 86400" using True by simp
  ultimately show ?thesis using True by (simp add: cdiv_nonneg)
next
  case False
  then have "(- a) div 86400 < 2 ^ 31" using assms by (simp add: div_less_iff_less_mult)
  moreover have "0 \<le> (- a) div 86400" using False by simp
  ultimately show ?thesis using False by (simp add: cdiv_neg)
qed

lemma quotient_le_iff:
  fixes a q r W :: int
  assumes "a = 86400 * q + r" "0 \<le> r" "r < 86400"
  shows "q \<le> W \<longleftrightarrow> a < (W + 1) * 86400"
  using assms by (simp add: algebra_simps) linarith

lemma div_86400_le_iff:
  fixes a W :: int
  shows "a div 86400 \<le> W \<longleftrightarrow> a < (W + 1) * 86400"
proof (rule quotient_le_iff)
  show "a = 86400 * (a div 86400) + a mod 86400"
    by (rule mult_div_mod_eq [symmetric])
  show "0 \<le> a mod 86400" by simp
  show "a mod 86400 < 86400" by simp
qed

lemma cdiv_le_iff:
  assumes "0 \<le> W"
  shows "cdiv a 86400 \<le> W \<longleftrightarrow> a < (W + 1) * 86400"
proof (cases "0 \<le> a")
  case True
  then show ?thesis by (simp add: cdiv_nonneg div_86400_le_iff)
next
  case False
  then have "0 \<le> (- a) div 86400" by simp
  moreover have "a < (W + 1) * 86400" using False assms by simp
  ultimately show ?thesis using False assms by (simp add: cdiv_neg)
qed

lemma to_int64_id: "- (2 ^ 63) \<le> x \<Longrightarrow> x < 2 ^ 63 \<Longrightarrow> to_int64 x = x"
proof -
  assume a: "- (2 ^ 63) \<le> x" "x < 2 ^ 63"
  have "0 \<le> x + 2 ^ 63" "x + 2 ^ 63 < 2 ^ 64" using a by simp_all
  then have "(x + 2 ^ 63) mod 2 ^ 64 = x + 2 ^ 63" by (rule mod_pos_pos_trivial)
  then show ?thesis by (simp add: to_int64_def)
qed

lemma Config_getInt_absent:
  "configMap w key = None \<Longrightarrow> Config_getInt key d w = (d, w)"
  by (simp add: Config_getInt_def)

lemma isWithinRefundWindow_fst:
  "fst (isWithinRefundWindow now ord w)
     = (to_int32 (cdiv (to_int64 (now - timestamp ord)) 86400) \<le> refundWindowDays w)"
  by (simp add: isWithinRefundWindow_def refundWindowDays_def split: prod.splits)

lemma isWithinRefundWindow_in_range:
  assumes "\<bar>now - timestamp ord\<bar> < 2 ^ 31 * 86400"
  shows "fst (isWithinRefundWindow now ord w)
           \<longleftrightarrow> cdiv (now - timestamp ord) 86400 \<le> refundWindowDays w"
proof -
  have "- (2 ^ 63) \<le> now - timestamp ord" "now - timestamp ord < 2 ^ 63"
    using assms by simp_all
  then have "to_int64 (now - timestamp ord) = now - timestamp ord"
    by (rule to_int64_id)
  then show ?thesis
    using cdiv_bound [OF assms] by (simp add: isWithinRefundWindow_fst to_int32_id)
qed

text \<open>
  Claim C5, as the code has it. The age of the order in seconds is divided by 86400, dropping
  the remainder, and the quotient is stored in a 32-bit \<^verbatim>\<open>int\<close>; the order is within the
  window exactly when that stored number of days is at most \<^verbatim>\<open>refundWindowDays\<close>. For an age
  of less than \<open>2 ^ 31\<close> days in either direction the stored number is the number of whole days,
  and then, for a window that is not negative, the order is within the window exactly when its
  age is less than \<open>(refundWindowDays + 1) * 86400\<close> seconds. \<^verbatim>\<open>refundWindowDays\<close> is 7 when the
  configuration has no entry. With 7, an order that is 6 days old is within the window and one
  that is 8 days old is not.
\<close>

theorem isWithinRefundWindow_whole_days:
  "(fst (isWithinRefundWindow now ord w)
      \<longleftrightarrow> to_int32 (cdiv (to_int64 (now - timestamp ord)) 86400) \<le> refundWindowDays w)
   \<and> (\<bar>now - timestamp ord\<bar> < 2 ^ 31 * 86400 \<longrightarrow>
        (fst (isWithinRefundWindow now ord w)
           \<longleftrightarrow> cdiv (now - timestamp ord) 86400 \<le> refundWindowDays w)
        \<and> (0 \<le> refundWindowDays w \<longrightarrow>
             (fst (isWithinRefundWindow now ord w)
                \<longleftrightarrow> now - timestamp ord < (refundWindowDays w + 1) * 86400))
        \<and> (refundWindowDays w = 7 \<and> now - timestamp ord = 6 * 86400
             \<longrightarrow> fst (isWithinRefundWindow now ord w))
        \<and> (refundWindowDays w = 7 \<and> now - timestamp ord = 8 * 86400
             \<longrightarrow> \<not> fst (isWithinRefundWindow now ord w)))
   \<and> (configMap w ''REFUND_WINDOW_DAYS'' = None \<longrightarrow> refundWindowDays w = 7)"
proof -
  have stored: "fst (isWithinRefundWindow now ord w)
      \<longleftrightarrow> to_int32 (cdiv (to_int64 (now - timestamp ord)) 86400) \<le> refundWindowDays w"
    by (rule isWithinRefundWindow_fst)
  have dflt: "configMap w ''REFUND_WINDOW_DAYS'' = None \<Longrightarrow> refundWindowDays w = 7"
    by (simp add: refundWindowDays_def Config_getInt_absent)
  have ranged: "(fst (isWithinRefundWindow now ord w)
           \<longleftrightarrow> cdiv (now - timestamp ord) 86400 \<le> refundWindowDays w)
        \<and> (0 \<le> refundWindowDays w \<longrightarrow>
             (fst (isWithinRefundWindow now ord w)
                \<longleftrightarrow> now - timestamp ord < (refundWindowDays w + 1) * 86400))
        \<and> (refundWindowDays w = 7 \<and> now - timestamp ord = 6 * 86400
             \<longrightarrow> fst (isWithinRefundWindow now ord w))
        \<and> (refundWindowDays w = 7 \<and> now - timestamp ord = 8 * 86400
             \<longrightarrow> \<not> fst (isWithinRefundWindow now ord w))"
    if r: "\<bar>now - timestamp ord\<bar> < 2 ^ 31 * 86400"
  proof -
    have days: "fst (isWithinRefundWindow now ord w)
            \<longleftrightarrow> cdiv (now - timestamp ord) 86400 \<le> refundWindowDays w"
      by (rule isWithinRefundWindow_in_range [OF r])
    have secs: "0 \<le> refundWindowDays w \<Longrightarrow>
            (fst (isWithinRefundWindow now ord w)
               \<longleftrightarrow> now - timestamp ord < (refundWindowDays w + 1) * 86400)"
      using days cdiv_le_iff by simp
    have six: "refundWindowDays w = 7 \<Longrightarrow> now - timestamp ord = 6 * 86400
            \<Longrightarrow> fst (isWithinRefundWindow now ord w)"
      using secs by simp
    have eight: "refundWindowDays w = 7 \<Longrightarrow> now - timestamp ord = 8 * 86400
            \<Longrightarrow> \<not> fst (isWithinRefundWindow now ord w)"
      using secs by simp
    show ?thesis using days secs six eight by blast
  qed
  show ?thesis using stored dflt ranged by blast
qed

theorem isWithinRefundWindow_whole_days_witness:
  "refundWindowDays World0 = 7
   \<and> fst (isWithinRefundWindow 518400
            \<lparr>orderId = 1, customerId = 101, total = 450, priority = 0, timestamp = 0,
             state = SERVED\<rparr> World0)
   \<and> \<not> fst (isWithinRefundWindow 691200
            \<lparr>orderId = 1, customerId = 101, total = 450, priority = 0, timestamp = 0,
             state = SERVED\<rparr> World0)
   \<and> fst (isWithinRefundWindow 691199
            \<lparr>orderId = 1, customerId = 101, total = 450, priority = 0, timestamp = 0,
             state = SERVED\<rparr> World0)
   \<and> fst (isWithinRefundWindow (2 ^ 31 * 86400)
            \<lparr>orderId = 1, customerId = 101, total = 450, priority = 0, timestamp = 0,
             state = SERVED\<rparr> World0)
   \<and> fst (isWithinRefundWindow 1700000000
            \<lparr>orderId = 1, customerId = 101, total = 450, priority = 0,
             timestamp = - (2 ^ 63), state = SERVED\<rparr> World0)"
proof -
  let ?o = "\<lparr>orderId = 1, customerId = 101, total = 450, priority = 0, timestamp = 0,
             state = SERVED\<rparr>"
  let ?old = "\<lparr>orderId = 1, customerId = 101, total = 450, priority = 0,
             timestamp = - (2 ^ 63), state = SERVED\<rparr>"
  have w1: "to_int32 (cdiv (to_int64 (2 ^ 31 * 86400 - timestamp ?o)) 86400) = - (2 ^ 31)"
    by (simp add: to_int64_def cdiv_def to_int32_def)
  have w2: "to_int32 (cdiv (to_int64 (1700000000 - timestamp ?old)) 86400) = - 579005544"
    by (simp add: to_int64_def cdiv_def to_int32_def)
  have seven: "refundWindowDays World0 = 7"
    using isWithinRefundWindow_whole_days [of 518400 ?o World0]
    by (simp add: World0_config cdiv_def to_int32_def to_int64_def)
  have a1: "fst (isWithinRefundWindow 518400 ?o World0)"
    using isWithinRefundWindow_whole_days [of 518400 ?o World0]
    by (simp add: World0_config cdiv_def to_int32_def to_int64_def)
  have a2: "\<not> fst (isWithinRefundWindow 691200 ?o World0)"
    using isWithinRefundWindow_whole_days [of 691200 ?o World0]
    by (simp add: World0_config cdiv_def to_int32_def to_int64_def)
  have a3: "fst (isWithinRefundWindow 691199 ?o World0)"
    using isWithinRefundWindow_whole_days [of 691199 ?o World0]
    by (simp add: World0_config cdiv_def to_int32_def to_int64_def)
  have a4: "fst (isWithinRefundWindow (2 ^ 31 * 86400) ?o World0)"
  proof -
    have "fst (isWithinRefundWindow (2 ^ 31 * 86400) ?o World0)
            \<longleftrightarrow> to_int32 (cdiv (to_int64 (2 ^ 31 * 86400 - timestamp ?o)) 86400)
                  \<le> refundWindowDays World0"
      using isWithinRefundWindow_whole_days [of "2 ^ 31 * 86400" ?o World0] by (rule conjunct1)
    then show ?thesis unfolding w1 seven by simp
  qed
  have a5: "fst (isWithinRefundWindow 1700000000 ?old World0)"
  proof -
    have "fst (isWithinRefundWindow 1700000000 ?old World0)
            \<longleftrightarrow> to_int32 (cdiv (to_int64 (1700000000 - timestamp ?old)) 86400)
                  \<le> refundWindowDays World0"
      using isWithinRefundWindow_whole_days [of 1700000000 ?old World0] by (rule conjunct1)
    then show ?thesis unfolding w2 seven by simp
  qed
  show ?thesis using seven a1 a2 a3 a4 a5 by simp
qed

text \<open>An order that is 7 days and one second old is past \<open>7 * 86400\<close> seconds and still
  within the window.\<close>

theorem refund_window_seconds_counterexample:
  "fst (isWithinRefundWindow 604801
          \<lparr>orderId = 1, customerId = 101, total = 450, priority = 0, timestamp = 0,
           state = SERVED\<rparr> World0)
   \<and> \<not> (604801 - timestamp \<lparr>orderId = 1, customerId = 101, total = 450, priority = 0,
                              timestamp = 0, state = SERVED\<rparr>
          \<le> refundWindowDays World0 * 86400)"
  by (simp add: isWithinRefundWindow_def refundWindowDays_def Config_getInt_def World0_def
                cdiv_def to_int32_def to_int64_def)

section \<open>Cancellation: business rule against state machine\<close>

text \<open>
  Claim C9. \<^verbatim>\<open>canCancelOrder\<close> refuses exactly the states Served, Cancelled and Refunded, so
  it accepts an order that is Preparing; \<open>canTransition PREPARING CANCELLED\<close> is false, so the
  guarded transition of that order to Cancelled fails and leaves it as it was.
\<close>

theorem cancel_rule_disagrees_with_fsm:
  "fst (canCancelOrder ord w) = (state ord \<notin> {SERVED, CANCELLED, REFUNDED})
   \<and> fst (canCancelOrder (ord\<lparr>state := PREPARING\<rparr>) w)
   \<and> \<not> canTransition PREPARING CANCELLED
   \<and> updateState (ord\<lparr>state := PREPARING\<rparr>) CANCELLED = (False, ord\<lparr>state := PREPARING\<rparr>)
   \<and> \<not> OrderFlowManager_canTransition PREPARING CANCELLED
   \<and> fst (tryUpdateStatus (d\<lparr>status := PREPARING\<rparr>) CANCELLED lines) = False"
  by (auto simp add: canCancelOrder_def updateState_def tryUpdateStatus_def)

section \<open>Idempotency records\<close>

lemma log_line_fields [simp]:
  "configMap (log_line level msg w) = configMap w"
  "lastViolationMessage (log_line level msg w) = lastViolationMessage w"
  "registry (log_line level msg w) = registry w"
  "defaultTTLSeconds (log_line level msg w) = defaultTTLSeconds w"
  "listeners (log_line level msg w) = listeners w"
  "calls (log_line level msg w) = calls w"
  by (simp_all add: log_line_def)







section \<open>Dispatch of events\<close>

lemma dispatch_frame:
  "configMap (snd (dispatch h e ls w)) = configMap w
   \<and> lastViolationMessage (snd (dispatch h e ls w)) = lastViolationMessage w
   \<and> registry (snd (dispatch h e ls w)) = registry w
   \<and> defaultTTLSeconds (snd (dispatch h e ls w)) = defaultTTLSeconds w
   \<and> listeners (snd (dispatch h e ls w)) = listeners w"
proof (induction ls arbitrary: w)
  case Nil
  show ?case by simp
next
  case (Cons l ls)
  show ?case
    by (simp add: Cons.IH Let_def split: prod.splits option.splits thrown.splits)
qed

lemma dispatch_all:
  assumes "\<forall>l\<in>set ls. \<forall>lines. fst (onEvent (h l) e lines) \<noteq> Some OtherThrow"
  shows "fst (dispatch h e ls w) = None
         \<and> calls (snd (dispatch h e ls w)) = calls w @ map (\<lambda>l. (l, e)) ls"
  using assms
proof (induction ls arbitrary: w)
  case Nil
  show ?case by simp
next
  case (Cons l ls)
  have rest: "\<forall>l\<in>set ls. \<forall>lines. fst (onEvent (h l) e lines) \<noteq> Some OtherThrow"
    using Cons.prems by simp
  have here: "fst (onEvent (h l) e (logged w)) \<noteq> Some OtherThrow"
    using Cons.prems by simp
  obtain res lines where r: "onEvent (h l) e (logged w) = (res, lines)"
    by (cases "onEvent (h l) e (logged w)")
  show ?case
  proof (cases res)
    case None
    then show ?thesis using r Cons.IH [OF rest] by simp
  next
    case (Some t)
    then obtain what where "t = StdException what"
      using here r by (cases t) auto
    then show ?thesis using r Some Cons.IH [OF rest] by simp
  qed
qed

lemma dispatch_stop:
  assumes "\<forall>x\<in>set pre. \<forall>lines. fst (onEvent (h x) e lines) \<noteq> Some OtherThrow"
      and "\<forall>lines. fst (onEvent (h l) e lines) = Some OtherThrow"
  shows "fst (dispatch h e (pre @ l # post) w) = Some OtherThrow
         \<and> calls (snd (dispatch h e (pre @ l # post) w)) = calls w @ map (\<lambda>x. (x, e)) (pre @ [l])"
  using assms(1)
proof (induction pre arbitrary: w)
  case Nil
  obtain res lines where r: "onEvent (h l) e (logged w) = (res, lines)"
    by (cases "onEvent (h l) e (logged w)")
  then have "res = Some OtherThrow" using assms(2) by (metis fst_conv)
  then show ?case using r by simp
next
  case (Cons x pre)
  have rest: "\<forall>x\<in>set pre. \<forall>lines. fst (onEvent (h x) e lines) \<noteq> Some OtherThrow"
    using Cons.prems by simp
  have here: "fst (onEvent (h x) e (logged w)) \<noteq> Some OtherThrow"
    using Cons.prems by simp
  obtain res lines where r: "onEvent (h x) e (logged w) = (res, lines)"
    by (cases "onEvent (h x) e (logged w)")
  show ?case
  proof (cases res)
    case None
    then show ?thesis using r Cons.IH [OF rest] by simp
  next
    case (Some t)
    then obtain what where "t = StdException what"
      using here r by (cases t) auto
    then show ?thesis using r Some Cons.IH [OF rest] by simp
  qed
qed

lemma dispatch_prefix:
  "\<exists>k. calls (snd (dispatch h e ls w)) = calls w @ map (\<lambda>l. (l, e)) (take k ls)"
proof (induction ls arbitrary: w)
  case Nil
  show ?case by simp
next
  case (Cons l ls)
  obtain res lines where r: "onEvent (h l) e (logged w) = (res, lines)"
    by (cases "onEvent (h l) e (logged w)")
  let ?w' = "w\<lparr>logged := lines, calls := calls w @ [(l, e)]\<rparr>"
  show ?case
  proof (cases res)
    case None
    obtain k where "calls (snd (dispatch h e ls ?w')) = calls ?w' @ map (\<lambda>l. (l, e)) (take k ls)"
      using Cons.IH by blast
    then have "calls (snd (dispatch h e (l # ls) w))
                 = calls w @ map (\<lambda>l. (l, e)) (take (Suc k) (l # ls))"
      using r None by simp
    then show ?thesis by blast
  next
    case (Some t)
    show ?thesis
    proof (cases t)
      case (StdException what)
      let ?w'' = "log_line ERROR (''EventBus: Listener '' @ quote @ getName (h l) @ quote
                                @ '' threw exception: '' @ what) ?w'"
      obtain k where "calls (snd (dispatch h e ls ?w'')) = calls ?w'' @ map (\<lambda>l. (l, e)) (take k ls)"
        using Cons.IH by blast
      then have "calls (snd (dispatch h e (l # ls) w))
                   = calls w @ map (\<lambda>l. (l, e)) (take (Suc k) (l # ls))"
        using r Some StdException by simp
      then show ?thesis by blast
    next
      case OtherThrow
      have "calls (snd (dispatch h e (l # ls) w))
                   = calls w @ map (\<lambda>l. (l, e)) (take (Suc 0) (l # ls))"
        using r Some OtherThrow by simp
      then show ?thesis by blast
    qed
  qed
qed

lemma emit_frame:
  "configMap (snd (emit h e w)) = configMap w"
  "lastViolationMessage (snd (emit h e w)) = lastViolationMessage w"
  "registry (snd (emit h e w)) = registry w"
  "defaultTTLSeconds (snd (emit h e w)) = defaultTTLSeconds w"
  "listeners (snd (emit h e w)) = listeners w"
  by (simp_all add: emit_def dispatch_frame)

lemma emit_all:
  assumes "\<forall>l\<in>set (listeners w). \<forall>lines. fst (onEvent (h l) e lines) \<noteq> Some OtherThrow"
  shows "fst (emit h e w) = None"
    and "calls (snd (emit h e w)) = calls w @ map (\<lambda>l. (l, e)) (listeners w)"
  using dispatch_all [of "listeners w" h e] assms by (simp_all add: emit_def)

lemma emit_stop:
  assumes "listeners w = pre @ l # post"
      and "\<forall>x\<in>set pre. \<forall>lines. fst (onEvent (h x) e lines) \<noteq> Some OtherThrow"
      and "\<forall>lines. fst (onEvent (h l) e lines) = Some OtherThrow"
  shows "fst (emit h e w) = Some OtherThrow"
    and "calls (snd (emit h e w)) = calls w @ map (\<lambda>x. (x, e)) (pre @ [l])"
  using dispatch_stop [OF assms(2) assms(3), of post] assms(1) by (simp_all add: emit_def)

lemma emit_as_dispatch:
  "\<exists>msg. emit h e w = dispatch h e (listeners w) (log_line DEBUG msg w)"
  unfolding emit_def by (rule exI) (rule refl)

lemma emit_prefix:
  "\<exists>k. calls (snd (emit h e w)) = calls w @ map (\<lambda>l. (l, e)) (take k (listeners w))"
proof -
  obtain msg where m: "emit h e w = dispatch h e (listeners w) (log_line DEBUG msg w)"
    using emit_as_dispatch by blast
  show ?thesis
    using dispatch_prefix [of h e "listeners w" "log_line DEBUG msg w"] m by simp
qed

lemma distinct_count_list_le_1: "distinct xs \<Longrightarrow> count_list xs x \<le> 1"
  by (induction xs) (auto simp add: count_list_0_iff)

lemma emit_at_most_once:
  assumes "distinct (listeners w)"
  shows "count_list (drop (length (calls w)) (calls (snd (emit h e w)))) (l, e) \<le> 1"
proof -
  obtain k where k: "calls (snd (emit h e w)) = calls w @ map (\<lambda>l. (l, e)) (take k (listeners w))"
    using emit_prefix by blast
  have "distinct (map (\<lambda>l. (l, e)) (take k (listeners w)))"
    using assms by (simp add: distinct_map inj_on_def)
  then have "count_list (map (\<lambda>l. (l, e)) (take k (listeners w))) (l, e) \<le> 1"
    by (rule distinct_count_list_le_1)
  then show ?thesis using k by simp
qed

lemma subscribe_present: "l \<in> set (listeners w) \<Longrightarrow> subscribe h l w = w"
  by (simp add: subscribe_def)

lemma subscribe_null: "subscribe h nullptr w = w"
  by (simp add: subscribe_def)

lemma subscribe_listeners:
  "listeners (subscribe h l w)
     = (if l = nullptr \<or> l \<in> set (listeners w) then listeners w else listeners w @ [l])"
  by (simp add: subscribe_def)

lemma subscribe_distinct:
  "distinct (listeners w) \<Longrightarrow> distinct (listeners (subscribe h l w))"
  by (simp add: subscribe_listeners)

lemma subscribe_twice: "subscribe h l (subscribe h l w) = subscribe h l w"
proof (cases "l = nullptr \<or> l \<in> set (listeners w)")
  case True
  then show ?thesis by (auto simp add: subscribe_null subscribe_present)
next
  case False
  then have "l \<in> set (listeners (subscribe h l w))" by (simp add: subscribe_listeners)
  then show ?thesis by (rule subscribe_present)
qed

lemma subscribe_all_distinct:
  "distinct (listeners w) \<Longrightarrow> distinct (listeners (subscribe_all h ls w))"
  unfolding subscribe_all_def
  by (induction ls arbitrary: w) (simp_all add: subscribe_distinct)

lemma unsubscribe_distinct:
  "distinct (listeners w) \<Longrightarrow> distinct (listeners (unsubscribe h l w))"
  by (simp add: unsubscribe_def)

lemma heap_std_no_other:
  "\<forall>x\<in>set [1, 2, 3]. \<forall>lines. fst (onEvent (heap_std x) e lines) \<noteq> Some OtherThrow"
  by (simp add: heap_std_def throwing_listener_def LoggerListener_def AuditListener_def)

text \<open>
  Claim C8, as the code has it. A listener that \<^verbatim>\<open>subscribe\<close> adds goes to the end of the
  vector. When no listener throws anything but a \<^verbatim>\<open>std::exception\<close>, \<^verbatim>\<open>emit\<close> calls
  \<^verbatim>\<open>onEvent\<close> of every subscribed listener once, in the order of the vector, and returns
  normally: a \<^verbatim>\<open>std::exception\<close> from one listener is logged and the later ones are still
  called. A listener that throws an object of another type ends the loop: that listener is
  the last one called and the throw leaves \<^verbatim>\<open>emit\<close>. The vector is not changed.
\<close>

theorem emit_delivers_in_order:
  "((\<forall>x\<in>set (listeners w). \<forall>lines. fst (onEvent (h x) e lines) \<noteq> Some OtherThrow) \<longrightarrow>
       fst (emit h e w) = None
       \<and> calls (snd (emit h e w)) = calls w @ map (\<lambda>x. (x, e)) (listeners w))
   \<and> (listeners w = pre @ l # post
        \<and> (\<forall>x\<in>set pre. \<forall>lines. fst (onEvent (h x) e lines) \<noteq> Some OtherThrow)
        \<and> (\<forall>lines. fst (onEvent (h l) e lines) = Some OtherThrow) \<longrightarrow>
       fst (emit h e w) = Some OtherThrow
       \<and> calls (snd (emit h e w)) = calls w @ map (\<lambda>x. (x, e)) (pre @ [l]))
   \<and> listeners (snd (emit h e w)) = listeners w
   \<and> listeners (subscribe h l w)
       = (if l = nullptr \<or> l \<in> set (listeners w) then listeners w else listeners w @ [l])"
  using emit_all [of w h e] emit_stop [of w pre l post h e] emit_frame(5) [of h e w]
        subscribe_listeners [of h l w]
  by blast

theorem emit_delivers_in_order_witness:
  "fst (emit heap_std (new_Event 0 ORDER_PLACED 1000) (World0\<lparr>listeners := [1, 2, 3]\<rparr>)) = None
   \<and> calls (snd (emit heap_std (new_Event 0 ORDER_PLACED 1000)
                    (World0\<lparr>listeners := [1, 2, 3]\<rparr>)))
       = [(1, new_Event 0 ORDER_PLACED 1000), (2, new_Event 0 ORDER_PLACED 1000),
          (3, new_Event 0 ORDER_PLACED 1000)]
   \<and> fst (emit heap_other (new_Event 0 ORDER_PLACED 1000) (World0\<lparr>listeners := [1, 2, 3]\<rparr>))
       = Some OtherThrow
   \<and> calls (snd (emit heap_other (new_Event 0 ORDER_PLACED 1000)
                    (World0\<lparr>listeners := [1, 2, 3]\<rparr>)))
       = [(1, new_Event 0 ORDER_PLACED 1000), (2, new_Event 0 ORDER_PLACED 1000)]"
proof -
  let ?e = "new_Event 0 ORDER_PLACED 1000"
  let ?w = "World0\<lparr>listeners := [1, 2, 3]\<rparr>"
  have ls: "listeners ?w = [1, 2, 3]" "calls World0 = []" by (simp_all add: World0_def)
  have split: "listeners ?w = [1] @ 2 # [3]" by (simp add: World0_def)
  have pre: "\<forall>x\<in>set [1]. \<forall>lines. fst (onEvent (heap_other x) ?e lines) \<noteq> Some OtherThrow"
    by (simp add: heap_other_def LoggerListener_def)
  have thr: "\<forall>lines. fst (onEvent (heap_other 2) ?e lines) = Some OtherThrow"
    by (simp add: heap_other_def throwing_listener_def)
  have ok: "\<forall>x\<in>set (listeners ?w). \<forall>lines. fst (onEvent (heap_std x) ?e lines) \<noteq> Some OtherThrow"
    using heap_std_no_other [of ?e] by (simp only: ls)
  show ?thesis
    using emit_delivers_in_order [of ?w heap_std ?e "[1]" 2 "[3]"]
          emit_delivers_in_order [of ?w heap_other ?e "[1]" 2 "[3]"]
          ok split pre thr
    by (simp add: ls)
qed

text \<open>With the second of three listeners throwing an object that is not a
  \<^verbatim>\<open>std::exception\<close>, the throw leaves \<^verbatim>\<open>emit\<close> and the third listener is never called.\<close>

theorem emit_other_throw_counterexample:
  "fst (emit heap_other (new_Event 0 ORDER_PLACED 1000) (World0\<lparr>listeners := [1, 2, 3]\<rparr>))
       = Some OtherThrow
   \<and> (3, new_Event 0 ORDER_PLACED 1000)
       \<notin> set (calls (snd (emit heap_other (new_Event 0 ORDER_PLACED 1000)
                            (World0\<lparr>listeners := [1, 2, 3]\<rparr>))))"
  by (simp add: emit_def World0_def heap_other_def LoggerListener_def throwing_listener_def
                log_line_def Let_def)

section \<open>Subscription\<close>

text \<open>
  Claim C10. Subscribing a listener that is already in the vector changes nothing, and
  neither does subscribing the null pointer; so subscribing twice is the same as subscribing
  once. The vector never holds a listener twice: that is kept by \<^verbatim>\<open>subscribe\<close> and holds after
  any sequence of subscriptions from the initial state. With such a vector, one \<^verbatim>\<open>emit\<close>
  calls a listener with the event at most once.
\<close>

theorem subscribe_idempotent:
  "(l \<in> set (listeners w) \<longrightarrow> subscribe h l w = w)
   \<and> subscribe h nullptr w = w
   \<and> subscribe h l (subscribe h l w) = subscribe h l w
   \<and> (distinct (listeners w) \<longrightarrow> distinct (listeners (subscribe h l w)))
   \<and> distinct (listeners (subscribe_all h ls World0))
   \<and> (distinct (listeners w) \<longrightarrow>
        count_list (drop (length (calls w)) (calls (snd (emit h e w)))) (l, e) \<le> 1)
   \<and> count_list (calls (snd (emit h e (subscribe_all h ls World0)))) (l, e) \<le> 1"
proof -
  have d0: "distinct (listeners World0)" by (simp add: World0_def)
  have c0: "calls (subscribe_all h ls World0) = []"
    unfolding subscribe_all_def
  proof (induction ls rule: rev_induct)
    case Nil
    show ?case by (simp add: World0_def)
  next
    case (snoc x xs)
    then show ?case by (simp add: subscribe_def)
  qed
  have last: "count_list (calls (snd (emit h e (subscribe_all h ls World0)))) (l, e) \<le> 1"
    using emit_at_most_once [OF subscribe_all_distinct [OF d0], of h ls h e l] c0 by simp
  show ?thesis
    using subscribe_present subscribe_null subscribe_twice subscribe_distinct
          subscribe_all_distinct [OF d0] emit_at_most_once last
    by simp
qed

theorem subscribe_idempotent_witness:
  "subscribe heap_std 2 (subscribe heap_std 2 World0) = subscribe heap_std 2 World0
   \<and> listeners (subscribe heap_std 2 (subscribe heap_std 2 World0)) = [2]
   \<and> subscribe heap_std nullptr World0 = World0
   \<and> listeners (subscribe_all heap_std [2, 2, 3, 2] World0) = [2, 3]
   \<and> count_list (calls (snd (emit heap_std (new_Event 0 ORDER_PLACED 1000)
                                 (subscribe_all heap_std [2, 2, 3, 2] World0))))
         (2, new_Event 0 ORDER_PLACED 1000) \<le> 1
   \<and> count_list (drop (length (calls (subscribe heap_std 2 World0)))
                    (calls (snd (emit heap_std (new_Event 0 ORDER_PLACED 1000)
                                   (subscribe heap_std 2 World0)))))
         (2, new_Event 0 ORDER_PLACED 1000) \<le> 1"
proof -
  have one: "listeners (subscribe heap_std 2 World0) = [2]"
    by (simp add: subscribe_def World0_def nullptr_def)
  have many: "listeners (subscribe_all heap_std [2, 2, 3, 2] World0) = [2, 3]"
    by (simp add: subscribe_all_def subscribe_def World0_def nullptr_def)
  have mem: "2 \<in> set (listeners (subscribe heap_std 2 World0))" by (simp add: one)
  have dis: "distinct (listeners (subscribe heap_std 2 World0))" by (simp add: one)
  show ?thesis
    using subscribe_idempotent [of 2 "subscribe heap_std 2 World0" heap_std "[2, 2, 3, 2]"
            "new_Event 0 ORDER_PLACED 1000"]
          subscribe_idempotent [of 2 World0 heap_std "[2, 2, 3, 2]"
            "new_Event 0 ORDER_PLACED 1000"]
          mem dis one many
    by simp
qed

section \<open>Command execution\<close>

lemma logged_log_line:
  "logged (log_line DEBUG msg w) = logged w"
  "logged (log_line INFO msg w) = logged w @ [(INFO, msg)]"
  "logged (log_line ERROR msg w) = logged w @ [(ERROR, msg)]"
  by (simp_all add: log_line_def Logger_log_def currentLevel_def)

lemma dispatch_logged_append:
  assumes "\<forall>x\<in>set ls. \<forall>lines. \<exists>more. snd (onEvent (h x) e lines) = lines @ more"
  shows "\<exists>rest. logged (snd (dispatch h e ls w)) = logged w @ rest"
  using assms
proof (induction ls arbitrary: w)
  case Nil
  show ?case by simp
next
  case (Cons l ls)
  have tail: "\<forall>x\<in>set ls. \<forall>lines. \<exists>more. snd (onEvent (h x) e lines) = lines @ more"
    using Cons.prems by simp
  obtain res lines where r: "onEvent (h l) e (logged w) = (res, lines)"
    by (cases "onEvent (h l) e (logged w)")
  obtain more where m: "lines = logged w @ more"
    using Cons.prems r by (metis list.set_intros(1) snd_conv)
  let ?w' = "w\<lparr>logged := lines, calls := calls w @ [(l, e)]\<rparr>"
  have w': "logged ?w' = logged w @ more" using m by simp
  show ?case
  proof (cases res)
    case None
    obtain rest where "logged (snd (dispatch h e ls ?w')) = logged ?w' @ rest"
      using Cons.IH [OF tail] by blast
    then have "logged (snd (dispatch h e (l # ls) w)) = logged w @ (more @ rest)"
      using r None m by simp
    then show ?thesis by blast
  next
    case (Some t)
    show ?thesis
    proof (cases t)
      case (StdException what)
      let ?msg = "''EventBus: Listener '' @ quote @ getName (h l) @ quote
                    @ '' threw exception: '' @ what"
      obtain rest where "logged (snd (dispatch h e ls (log_line ERROR ?msg ?w')))
                           = logged (log_line ERROR ?msg ?w') @ rest"
        using Cons.IH [OF tail] by blast
      then have "logged (snd (dispatch h e (l # ls) w))
                   = logged w @ (more @ (ERROR, ?msg) # rest)"
        using r Some StdException m by (simp add: logged_log_line)
      then show ?thesis by blast
    next
      case OtherThrow
      have "logged (snd (dispatch h e (l # ls) w)) = logged w @ more"
        using r Some OtherThrow m by simp
      then show ?thesis by blast
    qed
  qed
qed

lemma emit_logged_append:
  assumes "\<forall>x\<in>set (listeners w). \<forall>lines. \<exists>more. snd (onEvent (h x) e lines) = lines @ more"
  shows "\<exists>rest. logged (snd (emit h e w)) = logged w @ rest"
proof -
  obtain msg where m: "emit h e w = dispatch h e (listeners w) (log_line DEBUG msg w)"
    using emit_as_dispatch by blast
  show ?thesis
    using dispatch_logged_append [OF assms, of "log_line DEBUG msg w"] m
    by (simp add: logged_log_line)
qed

lemma execute_eq:
  "execute h fmt junk now c w
     = return_true (emit h (new_Event junk (event_type_of c) now)
                      (log_line INFO (command_line fmt c) w))"
  by (cases c) simp_all

lemma return_true_simps:
  "snd (return_true r) = snd r"
  "fst (return_true r) \<noteq> Inr False"
  "fst r = None \<Longrightarrow> fst (return_true r) = Inr True"
  "fst r = Some t \<Longrightarrow> fst (return_true r) = Inl t"
  by (simp_all add: return_true_def split: option.splits)

lemma execute_frame:
  "configMap (snd (execute h fmt junk now c w)) = configMap w"
  "lastViolationMessage (snd (execute h fmt junk now c w)) = lastViolationMessage w"
  "registry (snd (execute h fmt junk now c w)) = registry w"
  "defaultTTLSeconds (snd (execute h fmt junk now c w)) = defaultTTLSeconds w"
  "listeners (snd (execute h fmt junk now c w)) = listeners w"
  by (simp_all add: execute_eq return_true_simps emit_frame)

lemma execute_result: "fst (execute h fmt junk now c w) \<noteq> Inr False"
  by (simp add: execute_eq return_true_simps)

lemma execute_emits:
  assumes "\<forall>x\<in>set (listeners w). \<forall>lines.
             fst (onEvent (h x) (new_Event junk (event_type_of c) now) lines) \<noteq> Some OtherThrow"
  shows "fst (execute h fmt junk now c w) = Inr True"
    and "calls (snd (execute h fmt junk now c w))
           = calls w @ map (\<lambda>x. (x, new_Event junk (event_type_of c) now)) (listeners w)"
proof -
  let ?w' = "log_line INFO (command_line fmt c) w"
  have a: "\<forall>x\<in>set (listeners ?w'). \<forall>lines.
             fst (onEvent (h x) (new_Event junk (event_type_of c) now) lines) \<noteq> Some OtherThrow"
    using assms by simp
  show "fst (execute h fmt junk now c w) = Inr True"
    using emit_all(1) [OF a] by (simp add: execute_eq return_true_simps)
  show "calls (snd (execute h fmt junk now c w))
           = calls w @ map (\<lambda>x. (x, new_Event junk (event_type_of c) now)) (listeners w)"
    using emit_all(2) [OF a] by (simp add: execute_eq return_true_simps)
qed

lemma execute_throws:
  assumes "listeners w = pre @ l # post"
      and "\<forall>x\<in>set pre. \<forall>lines.
             fst (onEvent (h x) (new_Event junk (event_type_of c) now) lines) \<noteq> Some OtherThrow"
      and "\<forall>lines. fst (onEvent (h l) (new_Event junk (event_type_of c) now) lines)
                     = Some OtherThrow"
  shows "fst (execute h fmt junk now c w) = Inl OtherThrow"
    and "calls (snd (execute h fmt junk now c w))
           = calls w @ map (\<lambda>x. (x, new_Event junk (event_type_of c) now)) (pre @ [l])"
proof -
  let ?w' = "log_line INFO (command_line fmt c) w"
  have ls: "listeners ?w' = pre @ l # post" using assms(1) by simp
  show "fst (execute h fmt junk now c w) = Inl OtherThrow"
    using emit_stop(1) [OF ls assms(2) assms(3)] by (simp add: execute_eq return_true_simps)
  show "calls (snd (execute h fmt junk now c w))
           = calls w @ map (\<lambda>x. (x, new_Event junk (event_type_of c) now)) (pre @ [l])"
    using emit_stop(2) [OF ls assms(2) assms(3)] by (simp add: execute_eq return_true_simps)
qed

lemma execute_logged:
  assumes "\<forall>x\<in>set (listeners w). \<forall>lines. \<exists>more.
             snd (onEvent (h x) (new_Event junk (event_type_of c) now) lines) = lines @ more"
  shows "\<exists>rest. logged (snd (execute h fmt junk now c w))
                  = logged w @ (INFO, command_line fmt c) # rest"
proof -
  let ?w' = "log_line INFO (command_line fmt c) w"
  have a: "\<forall>x\<in>set (listeners ?w'). \<forall>lines. \<exists>more.
             snd (onEvent (h x) (new_Event junk (event_type_of c) now) lines) = lines @ more"
    using assms by simp
  obtain rest where "logged (snd (emit h (new_Event junk (event_type_of c) now) ?w'))
                       = logged ?w' @ rest"
    using emit_logged_append [OF a] by blast
  then have "logged (snd (execute h fmt junk now c w))
               = logged w @ (INFO, command_line fmt c) # rest"
    by (simp add: execute_eq return_true_simps logged_log_line)
  then show ?thesis by blast
qed

lemma heap_std_appends:
  "\<forall>x\<in>set [1, 2, 3]. \<forall>lines. \<exists>more. snd (onEvent (heap_std x) e lines) = lines @ more"
  by (simp add: heap_std_def throwing_listener_def LoggerListener_def AuditListener_def
                Logger_log_def currentLevel_def)

text \<open>
  Claim C4, as the code has it. \<^verbatim>\<open>execute\<close> of each of the four commands is: log the
  command's line at level \<^verbatim>\<open>INFO\<close>, build the event of its class, emit it, return \<^verbatim>\<open>true\<close>.
  So the line is the first thing added to the log (listeners can only add lines after it),
  and the event is emitted whatever the order and its state. When no listener throws anything
  but a \<^verbatim>\<open>std::exception\<close>, every subscribed listener is called with that event and the
  result is \<^verbatim>\<open>true\<close>; when a listener throws an object of another type, that throw leaves
  \<^verbatim>\<open>emit\<close> and \<^verbatim>\<open>execute\<close>; the result is never \<^verbatim>\<open>false\<close>. The idempotency registry and its
  time to live, the last violation message of the business rules, the configuration and the
  listeners are as before: \<^verbatim>\<open>execute\<close> makes no duplicate check, no rule check and no state
  transition, and records no outcome.
\<close>

theorem execute_emits_unconditionally:
  "execute h fmt junk now c w
     = return_true (emit h (new_Event junk (event_type_of c) now)
                      (log_line INFO (command_line fmt c) w))
   \<and> ((\<forall>x\<in>set (listeners w). \<forall>lines. \<exists>more.
          snd (onEvent (h x) (new_Event junk (event_type_of c) now) lines) = lines @ more)
        \<longrightarrow> (\<exists>rest. logged (snd (execute h fmt junk now c w))
                     = logged w @ (INFO, command_line fmt c) # rest))
   \<and> registry (snd (execute h fmt junk now c w)) = registry w
   \<and> defaultTTLSeconds (snd (execute h fmt junk now c w)) = defaultTTLSeconds w
   \<and> lastViolationMessage (snd (execute h fmt junk now c w)) = lastViolationMessage w
   \<and> configMap (snd (execute h fmt junk now c w)) = configMap w
   \<and> listeners (snd (execute h fmt junk now c w)) = listeners w
   \<and> fst (execute h fmt junk now c w) \<noteq> Inr False
   \<and> ((\<forall>x\<in>set (listeners w). \<forall>lines.
          fst (onEvent (h x) (new_Event junk (event_type_of c) now) lines) \<noteq> Some OtherThrow)
        \<longrightarrow> fst (execute h fmt junk now c w) = Inr True
            \<and> calls (snd (execute h fmt junk now c w))
                = calls w
                  @ map (\<lambda>x. (x, new_Event junk (event_type_of c) now)) (listeners w))
   \<and> (listeners w = pre @ l # post
        \<and> (\<forall>x\<in>set pre. \<forall>lines.
              fst (onEvent (h x) (new_Event junk (event_type_of c) now) lines)
                \<noteq> Some OtherThrow)
        \<and> (\<forall>lines. fst (onEvent (h l) (new_Event junk (event_type_of c) now) lines)
                      = Some OtherThrow)
        \<longrightarrow> fst (execute h fmt junk now c w) = Inl OtherThrow
            \<and> calls (snd (execute h fmt junk now c w))
                = calls w
                  @ map (\<lambda>x. (x, new_Event junk (event_type_of c) now)) (pre @ [l]))"
  using execute_eq [of h fmt junk now c w] execute_logged [of w h junk c now fmt]
        execute_frame [of h fmt junk now c w] execute_result [of h fmt junk now c w]
        execute_emits [of w h junk c now fmt]
        execute_throws [of w pre l post h junk c now fmt]
  by blast

theorem execute_emits_unconditionally_witness:
  "fst (execute heap_std (\<lambda>x. []) 0 1000 (ConfirmOrderCommand 7)
          (World0\<lparr>listeners := [1, 2, 3]\<rparr>)) = Inr True
   \<and> calls (snd (execute heap_std (\<lambda>x. []) 0 1000 (ConfirmOrderCommand 7)
                    (World0\<lparr>listeners := [1, 2, 3]\<rparr>)))
       = [(1, new_Event 0 ORDER_CONFIRMED 1000), (2, new_Event 0 ORDER_CONFIRMED 1000),
          (3, new_Event 0 ORDER_CONFIRMED 1000)]
   \<and> registry (snd (execute heap_std (\<lambda>x. []) 0 1000 (ConfirmOrderCommand 7)
                       (World0\<lparr>listeners := [1, 2, 3]\<rparr>))) = Map.empty
   \<and> hd (logged (snd (execute heap_std (\<lambda>x. []) 0 1000 (ConfirmOrderCommand 7)
                         (World0\<lparr>listeners := [1, 2, 3]\<rparr>))))
       = (INFO, ''ConfirmOrderCommand #7'')
   \<and> fst (execute heap_other (\<lambda>x. []) 0 1000 (ConfirmOrderCommand 7)
            (World0\<lparr>listeners := [1, 2, 3]\<rparr>)) = Inl OtherThrow
   \<and> calls (snd (execute heap_other (\<lambda>x. []) 0 1000 (ConfirmOrderCommand 7)
                    (World0\<lparr>listeners := [1, 2, 3]\<rparr>)))
       = [(1, new_Event 0 ORDER_CONFIRMED 1000), (2, new_Event 0 ORDER_CONFIRMED 1000)]"
proof -
  let ?w = "World0\<lparr>listeners := [1, 2, 3]\<rparr>"
  let ?c = "ConfirmOrderCommand 7"
  let ?e = "new_Event 0 (event_type_of ?c) 1000"
  let ?f = "\<lambda>x::real. []::string"
  have ls: "listeners ?w = [1, 2, 3]" "calls ?w = []" "registry ?w = Map.empty"
           "logged ?w = []"
    by (simp_all add: World0_def)
  have split: "listeners ?w = [1] @ 2 # [3]" by (simp add: World0_def)
  have n7: "command_line ?f ?c = ''ConfirmOrderCommand #7''" by code_simp
  have ok: "\<forall>x\<in>set (listeners ?w). \<forall>lines.
              fst (onEvent (heap_std x) ?e lines) \<noteq> Some OtherThrow"
    using heap_std_no_other [of ?e] by (simp only: ls)
  have app: "\<forall>x\<in>set (listeners ?w). \<forall>lines. \<exists>more.
              snd (onEvent (heap_std x) ?e lines) = lines @ more"
    using heap_std_appends [of ?e] by (simp only: ls)
  have pre: "\<forall>x\<in>set [1]. \<forall>lines. fst (onEvent (heap_other x) ?e lines) \<noteq> Some OtherThrow"
    by (simp add: heap_other_def LoggerListener_def)
  have thr: "\<forall>lines. fst (onEvent (heap_other 2) ?e lines) = Some OtherThrow"
    by (simp add: heap_other_def throwing_listener_def)
  note std = execute_emits_unconditionally [of heap_std ?f 0 1000 ?c ?w "[1]" 2 "[3]"]
  note other = execute_emits_unconditionally [of heap_other ?f 0 1000 ?c ?w "[1]" 2 "[3]"]
  have "\<exists>rest. logged (snd (execute heap_std ?f 0 1000 ?c ?w))
                 = logged ?w @ (INFO, command_line ?f ?c) # rest"
    using std app by blast
  then have first: "hd (logged (snd (execute heap_std ?f 0 1000 ?c ?w)))
                      = (INFO, ''ConfirmOrderCommand #7'')"
    unfolding n7 ls by auto
  have res: "fst (execute heap_std ?f 0 1000 ?c ?w) = Inr True"
    and del: "calls (snd (execute heap_std ?f 0 1000 ?c ?w))
                = calls ?w @ map (\<lambda>x. (x, ?e)) (listeners ?w)"
    and reg: "registry (snd (execute heap_std ?f 0 1000 ?c ?w)) = registry ?w"
    using std ok by blast+
  have thrown: "fst (execute heap_other ?f 0 1000 ?c ?w) = Inl OtherThrow"
    and part: "calls (snd (execute heap_other ?f 0 1000 ?c ?w))
                 = calls ?w @ map (\<lambda>x. (x, ?e)) ([1] @ [2])"
    using other split pre thr by blast+
  show ?thesis
    using first res del reg thrown part unfolding ls by simp
qed

text \<open>An order with customer id 0 and amount 0 fails \<^verbatim>\<open>canCreateOrder\<close>; placing it still
  emits \<^verbatim>\<open>ORDER_PLACED\<close> to the listener and returns \<^verbatim>\<open>true\<close>, and the registry stays empty.\<close>

theorem execute_without_checks_counterexample:
  "\<not> fst (canCreateOrder 0 0 (World0\<lparr>listeners := [2]\<rparr>))
   \<and> fst (execute heap_std (\<lambda>x. []) 0 1000
            (PlaceOrderCommand \<lparr>orderId = 1, customerId = 0, total = 0, priority = 0,
                                timestamp = 0, state = CANCELLED\<rparr>)
            (World0\<lparr>listeners := [2]\<rparr>)) = Inr True
   \<and> calls (snd (execute heap_std (\<lambda>x. []) 0 1000
            (PlaceOrderCommand \<lparr>orderId = 1, customerId = 0, total = 0, priority = 0,
                                timestamp = 0, state = CANCELLED\<rparr>)
            (World0\<lparr>listeners := [2]\<rparr>)))
       = [(2, new_Event 0 ORDER_PLACED 1000)]
   \<and> registry (snd (execute heap_std (\<lambda>x. []) 0 1000
            (PlaceOrderCommand \<lparr>orderId = 1, customerId = 0, total = 0, priority = 0,
                                timestamp = 0, state = CANCELLED\<rparr>)
            (World0\<lparr>listeners := [2]\<rparr>))) = Map.empty"
proof -
  let ?w = "World0\<lparr>listeners := [2]\<rparr>"
  let ?c = "PlaceOrderCommand \<lparr>orderId = 1, customerId = 0, total = 0, priority = 0,
                                timestamp = 0, state = CANCELLED\<rparr>"
  have ls: "listeners ?w = [2]" "calls World0 = []" "registry World0 = Map.empty"
    by (simp_all add: World0_def)
  have ok: "\<forall>x\<in>set (listeners ?w). \<forall>lines.
      fst (onEvent (heap_std x) (new_Event 0 (event_type_of ?c) 1000) lines) \<noteq> Some OtherThrow"
    by (simp add: ls heap_std_def LoggerListener_def)
  have rule: "\<not> fst (canCreateOrder 0 0 ?w)" by (simp add: canCreateOrder_def)
  show ?thesis
    using execute_emits [OF ok, of "\<lambda>x. []"] execute_frame(3) [of heap_std "\<lambda>x. []" 0 1000 ?c ?w]
          rule
    by (simp add: ls)
qed

end
